theory Spec2Isabelle
  imports Complex_Main
begin

section \<open>JavaScript values\<close>

text \<open>
  The values the modules handle are what \<^verbatim>\<open>JSON.parse\<close> returns, what a property read
  returns (\<^verbatim>\<open>undefined\<close> for a missing property) and the strings cut out of a CSV text.
  A string is a list of code units below 256. A number is an exact rational (the finite
  doubles are among them). An object is the list of its own properties; \<open>map_of\<close> reads it.
\<close>

datatype jsval =
    JUndefined
  | JNull
  | JBool bool
  | JNum rat
  | JStr string
  | JArr "jsval list"
  | JObj "(string \<times> jsval) list"

datatype error = FileNotFound string | SyntaxError | TypeError

text \<open>\<^verbatim>\<open>!!v\<close>: the values JavaScript takes for false are \<^verbatim>\<open>undefined\<close>, \<^verbatim>\<open>null\<close>,
  \<^verbatim>\<open>false\<close>, \<^verbatim>\<open>0\<close> and the empty string.\<close>

fun truthy :: "jsval \<Rightarrow> bool" where
  "truthy JUndefined = False"
| "truthy JNull = False"
| "truthy (JBool b) = b"
| "truthy (JNum n) = (n \<noteq> 0)"
| "truthy (JStr s) = (s \<noteq> [])"
| "truthy (JArr xs) = True"
| "truthy (JObj kvs) = True"

text \<open>\<^verbatim>\<open>a || b\<close> and \<^verbatim>\<open>a ?? b\<close>.\<close>

definition js_or :: "jsval \<Rightarrow> jsval \<Rightarrow> jsval" where
  "js_or a b = (if truthy a then a else b)"

fun nullish :: "jsval \<Rightarrow> bool" where
  "nullish JUndefined = True"
| "nullish JNull = True"
| "nullish v = False"

definition js_coalesce :: "jsval \<Rightarrow> jsval \<Rightarrow> jsval" where
  "js_coalesce a b = (if nullish a then b else a)"

text \<open>
  \<^verbatim>\<open>v.k\<close> for a property name \<open>k\<close> that is not an array index: a read on \<^verbatim>\<open>null\<close> or
  \<^verbatim>\<open>undefined\<close> throws a TypeError; an object gives its own property or \<^verbatim>\<open>undefined\<close>;
  arrays and strings have \<^verbatim>\<open>length\<close>; every other read is \<^verbatim>\<open>undefined\<close>. (None of the
  names the modules read is a property of a built-in prototype.)
\<close>

fun get_prop :: "jsval \<Rightarrow> string \<Rightarrow> error + jsval" where
  "get_prop JUndefined k = Inl TypeError"
| "get_prop JNull k = Inl TypeError"
| "get_prop (JObj kvs) k = Inr (case map_of kvs k of None \<Rightarrow> JUndefined | Some v \<Rightarrow> v)"
| "get_prop (JArr xs) k = Inr (if k = ''length'' then JNum (of_nat (length xs)) else JUndefined)"
| "get_prop (JStr s) k = Inr (if k = ''length'' then JNum (of_nat (length s)) else JUndefined)"
| "get_prop (JBool b) k = Inr JUndefined"
| "get_prop (JNum n) k = Inr JUndefined"

text \<open>The value of \<^verbatim>\<open>v.k\<close> where \<open>v\<close> is known to be neither \<^verbatim>\<open>null\<close> nor
  \<^verbatim>\<open>undefined\<close>, so that the read cannot throw.\<close>

definition read :: "jsval \<Rightarrow> string \<Rightarrow> jsval" where
  "read v k = (case get_prop v k of Inl e \<Rightarrow> JUndefined | Inr x \<Rightarrow> x)"

text \<open>\<^verbatim>\<open>v?.k\<close>: \<^verbatim>\<open>undefined\<close> on \<^verbatim>\<open>null\<close> and \<^verbatim>\<open>undefined\<close>, else the read.\<close>

definition opt_prop :: "jsval \<Rightarrow> string \<Rightarrow> jsval" where
  "opt_prop v k = (if nullish v then JUndefined else read v k)"

text \<open>\<^verbatim>\<open>v?.[0]\<close>: the first element of an array, the first code unit of a string, the
  property \<^verbatim>\<open>"0"\<close> of an object.\<close>

fun opt_first :: "jsval \<Rightarrow> jsval" where
  "opt_first (JArr xs) = (case xs of [] \<Rightarrow> JUndefined | x # _ \<Rightarrow> x)"
| "opt_first (JStr s) = (case s of [] \<Rightarrow> JUndefined | c # _ \<Rightarrow> JStr [c])"
| "opt_first (JObj kvs) = (case map_of kvs ''0'' of None \<Rightarrow> JUndefined | Some v \<Rightarrow> v)"
| "opt_first v = JUndefined"

text \<open>
  \<^verbatim>\<open>obj[k] = v\<close> on an object literal's own properties. The name \<^verbatim>\<open>__proto__\<close> is the
  accessor of \<^verbatim>\<open>Object.prototype\<close>: assigning a string or \<^verbatim>\<open>undefined\<close> through it
  changes nothing.
\<close>

fun assign :: "(string \<times> jsval) list \<Rightarrow> string \<Rightarrow> jsval \<Rightarrow> (string \<times> jsval) list" where
  "assign [] k v = [(k, v)]"
| "assign ((k', v') # kvs) k v =
     (if k' = k then (k, v) # kvs else (k', v') # assign kvs k v)"

definition set_prop :: "(string \<times> jsval) list \<Rightarrow> string \<Rightarrow> jsval \<Rightarrow> (string \<times> jsval) list" where
  "set_prop obj k v = (if k = ''__proto__'' then obj else assign obj k v)"

section \<open>Strings\<close>

text \<open>\<^verbatim>\<open>s.split(',')\<close>: the pieces between the delimiters, one piece for a string without any.\<close>

fun split_on :: "char \<Rightarrow> string \<Rightarrow> string list" where
  "split_on d [] = [[]]"
| "split_on d (c # cs) =
     (if c = d then [] # split_on d cs
      else (case split_on d cs of [] \<Rightarrow> [[c]] | p # ps \<Rightarrow> (c # p) # ps))"

text \<open>\<^verbatim>\<open>s.split(/\r?\n/)\<close>: a line ends at a line feed, and a carriage return right before
  the line feed belongs to the line end.\<close>

fun split_lines :: "string \<Rightarrow> string list" where
  "split_lines [] = [[]]"
| "split_lines [c] = (if c = CHR 0x0A then [[], []] else [[c]])"
| "split_lines (c # d # cs) =
     (if c = CHR 0x0D \<and> d = CHR 0x0A then [] # split_lines cs
      else if c = CHR 0x0A then [] # split_lines (d # cs)
      else (case split_lines (d # cs) of [] \<Rightarrow> [[c]] | p # ps \<Rightarrow> (c # p) # ps))"

text \<open>\<^verbatim>\<open>s.trim()\<close>: the white space and line terminators among the code units below 256.\<close>

definition is_ws :: "char \<Rightarrow> bool" where
  "is_ws c = (c = CHR 0x09 \<or> c = CHR 0x0A \<or> c = CHR 0x0B \<or> c = CHR 0x0C \<or> c = CHR 0x0D
     \<or> c = CHR 0x20 \<or> c = CHR 0xA0)"

definition trim :: "string \<Rightarrow> string" where
  "trim s = rev (dropWhile is_ws (rev (dropWhile is_ws s)))"

text \<open>\<^verbatim>\<open>s.endsWith(t)\<close>.\<close>

definition endsWith :: "string \<Rightarrow> string \<Rightarrow> bool" where
  "endsWith s t = (length t \<le> length s \<and> drop (length s - length t) s = t)"

section \<open>messages.js: parseCsv\<close>

text \<open>\<^verbatim>\<open>values[i]\<close>: \<^verbatim>\<open>undefined\<close> past the end.\<close>

definition value_at :: "string list \<Rightarrow> nat \<Rightarrow> jsval" where
  "value_at values i = (if i < length values then JStr (values ! i) else JUndefined)"

text \<open>\<^verbatim>\<open>headers.forEach((h, i) => obj[h] = values[i])\<close> on \<^verbatim>\<open>obj = {}\<close>.\<close>

definition row_object :: "string list \<Rightarrow> string list \<Rightarrow> jsval" where
  "row_object headers values =
     JObj (foldl (\<lambda>obj (h, i). set_prop obj h (value_at values i)) []
             (zip headers [0..<length headers]))"

definition parseCsv :: "string \<Rightarrow> jsval list" where
  "parseCsv text =
     (case split_lines (trim text) of
        [] \<Rightarrow> []
      | l0 # rest \<Rightarrow>
          (let headers = split_on (CHR '','') l0
           in map (\<lambda>line. row_object headers (split_on (CHR '','') line)) rest))"

section \<open>The archive\<close>

text \<open>
  JSZip and \<^verbatim>\<open>JSON.parse\<close> are not code of the modules. An archive is the list of its
  entries in the order \<^verbatim>\<open>forEach\<close> visits them; \<^verbatim>\<open>zip.file(path)\<close> is the entry of that
  name unless it is a directory; \<^verbatim>\<open>forEach\<close> on a folder of root \<open>rt\<close> visits the
  entries whose name extends \<open>rt\<close>, with the rest of the name as relative path. The
  names are the keys of \<^verbatim>\<open>zip.files\<close>, so no two entries of an archive share a name.
  \<^verbatim>\<open>JSON.parse\<close> is a parameter \<open>parse\<close> of every function that calls it: \<open>None\<close> is
  the SyntaxError it throws.
\<close>

record zentry =
  z_name :: string
  z_dir :: bool
  z_text :: string

type_synonym jszip = "zentry list"

type_synonym json_parse = "string \<Rightarrow> jsval option"

definition zip_file :: "jszip \<Rightarrow> string \<Rightarrow> zentry option" where
  "zip_file z path =
     (case find (\<lambda>e. z_name e = path) z of
        None \<Rightarrow> None
      | Some e \<Rightarrow> (if z_dir e then None else Some e))"

definition zip_forEach :: "jszip \<Rightarrow> string \<Rightarrow> (string \<times> zentry) list" where
  "zip_forEach z rt =
     map (\<lambda>e. (drop (length rt) (z_name e), e))
       (filter (\<lambda>e. drop (length rt) (z_name e) \<noteq> [] \<and> take (length rt) (z_name e) = rt) z)"

text \<open>The monadic bind of a computation that may throw.\<close>

definition bind_err :: "error + 'a \<Rightarrow> ('a \<Rightarrow> error + 'b) \<Rightarrow> error + 'b" where
  "bind_err r f = (case r of Inl e \<Rightarrow> Inl e | Inr x \<Rightarrow> f x)"

text \<open>\<^verbatim>\<open>xs.map(f)\<close> for an \<open>f\<close> that may throw: the first throw ends the loop.\<close>

fun map_err :: "('a \<Rightarrow> error + 'b) \<Rightarrow> 'a list \<Rightarrow> error + 'b list" where
  "map_err f [] = Inr []"
| "map_err f (x # xs) =
     (case f x of
        Inl e \<Rightarrow> Inl e
      | Inr y \<Rightarrow> (case map_err f xs of Inl e \<Rightarrow> Inl e | Inr ys \<Rightarrow> Inr (y # ys)))"

text \<open>\<^verbatim>\<open>readJson\<close> (the same function in both modules).\<close>

definition readJson :: "json_parse \<Rightarrow> jszip \<Rightarrow> string \<Rightarrow> error + jsval" where
  "readJson parse z path =
     (case zip_file z path of
        None \<Rightarrow> Inl (FileNotFound path)
      | Some file \<Rightarrow>
          (case parse (z_text file) of None \<Rightarrow> Inl SyntaxError | Some v \<Rightarrow> Inr v))"

section \<open>messages.js: readMessages\<close>

record message =
  m_id :: jsval
  m_timestamp :: jsval
  m_content :: jsval
  m_attachments :: jsval

text \<open>The arrow function of the JSON branch. Its first property read throws when the
  array element is \<^verbatim>\<open>null\<close>.\<close>

definition json_message :: "jsval \<Rightarrow> error + message" where
  "json_message m =
     (if nullish m then Inl TypeError
      else Inr \<lparr>
        m_id = js_coalesce (read m ''ID'') (js_coalesce (read m ''id'') (JStr [])),
        m_timestamp = js_coalesce (read m ''Timestamp'') (js_coalesce (read m ''timestamp'') (JStr [])),
        m_content = js_coalesce (read m ''Contents'') (js_coalesce (read m ''content'') (JStr [])),
        m_attachments =
          js_coalesce (read m ''Attachments'') (js_coalesce (read m ''attachments'') (JStr [])) \<rparr>)"

text \<open>The arrow function of the CSV branch; its argument is an object of \<open>parseCsv\<close>.\<close>

definition csv_message :: "jsval \<Rightarrow> message" where
  "csv_message m =
     \<lparr> m_id = read m ''ID'',
       m_timestamp = read m ''Timestamp'',
       m_content = read m ''Contents'',
       m_attachments = read m ''Attachments'' \<rparr>"

text \<open>\<^verbatim>\<open>data.map\<close> is a function only when \<open>data\<close> is an array; calling it on any other
  parsed value throws a TypeError.\<close>

definition readMessages :: "json_parse \<Rightarrow> jszip \<Rightarrow> string \<Rightarrow> error + message list" where
  "readMessages parse z dir =
     (let jsonPath = ''Messages/'' @ dir @ ''/messages.json'';
          csvPath = ''Messages/'' @ dir @ ''/messages.csv''
      in if zip_file z jsonPath \<noteq> None then
           bind_err (readJson parse z jsonPath)
             (\<lambda>data. case data of JArr ms \<Rightarrow> map_err json_message ms | _ \<Rightarrow> Inl TypeError)
         else (case zip_file z csvPath of
                 Some file \<Rightarrow> Inr (map csv_message (parseCsv (z_text file)))
               | None \<Rightarrow> Inr []))"

section \<open>messages.js: readChannelInfo\<close>

record channel_info =
  ci_id :: jsval
  ci_name :: jsval
  ci_type :: jsval
  ci_is_dm :: bool
  ci_guild :: jsval

text \<open>
  The body of the \<^verbatim>\<open>try\<close> block after \<^verbatim>\<open>readJson\<close>. The read \<^verbatim>\<open>ch.guild_id\<close> throws when
  the file holds \<^verbatim>\<open>null\<close>. \<^verbatim>\<open>!!isDM\<close> is the truth value of
  \<^verbatim>\<open>!ch.guild_id && (ch.type === 1 || ch.type === 3 || ch.recipients?.length)\<close>.
\<close>

definition channel_info_of :: "string \<Rightarrow> jsval \<Rightarrow> error + channel_info" where
  "channel_info_of dir ch =
     (if nullish ch then Inl TypeError
      else
        (let isDM = (\<not> truthy (read ch ''guild_id'') \<and>
                      (read ch ''type'' = JNum 1 \<or> read ch ''type'' = JNum 3 \<or>
                       truthy (opt_prop (read ch ''recipients'') ''length'')))
         in Inr \<lparr>
           ci_id = read ch ''id'',
           ci_name =
             js_or (read ch ''name'')
               (js_or (opt_prop (opt_first (read ch ''recipients'')) ''username'')
                 (js_or (opt_prop (read ch ''recipient'') ''username'')
                   (JStr (''DM '' @ dir)))),
           ci_type = read ch ''type'',
           ci_is_dm = isDM,
           ci_guild = js_coalesce (opt_prop (read ch ''guild'') ''name'') JNull \<rparr>))"

definition fallback :: "string \<Rightarrow> channel_info" where
  "fallback dir =
     \<lparr> ci_id = JStr dir, ci_name = JStr (''DM '' @ dir), ci_type = JStr [],
       ci_is_dm = True, ci_guild = JNull \<rparr>"

definition readChannelInfo :: "json_parse \<Rightarrow> jszip \<Rightarrow> string \<Rightarrow> channel_info" where
  "readChannelInfo parse z dir =
     (let path = ''Messages/'' @ dir @ ''/channel.json''
      in case bind_err (readJson parse z path) (channel_info_of dir) of
           Inr info \<Rightarrow> info
         | Inl e \<Rightarrow> fallback dir)"

section \<open>messages.js: listChannelDirs\<close>

text \<open>
  The regular expression
  \<^verbatim>\<open>^Messages\/([^/]+)\/(?:messages\.json|messages\.csv|channel\.json)$\<close>: the path has
  exactly three segments, the first is \<^verbatim>\<open>Messages\<close>, the second is not empty and the third
  is one of the three file names. The result is the second segment, \<^verbatim>\<open>match[1]\<close>.
\<close>

definition channel_dir_match :: "string \<Rightarrow> string option" where
  "channel_dir_match p =
     (case split_on (CHR ''/'') p of
        [a, d, f] \<Rightarrow>
          (if a = ''Messages'' \<and> d \<noteq> [] \<and>
              (f = ''messages.json'' \<or> f = ''messages.csv'' \<or> f = ''channel.json'')
           then Some d else None)
      | _ \<Rightarrow> None)"

text \<open>\<^verbatim>\<open>dirs.add(d)\<close> on a \<^verbatim>\<open>Set\<close>, which keeps its elements in insertion order.\<close>

definition set_add :: "string list \<Rightarrow> string \<Rightarrow> string list" where
  "set_add dirs d = (if d \<in> set dirs then dirs else dirs @ [d])"

definition listChannelDirs :: "jszip \<Rightarrow> string list" where
  "listChannelDirs z =
     foldl (\<lambda>dirs (relativePath, file).
              case channel_dir_match relativePath of
                Some d \<Rightarrow> set_add dirs d
              | None \<Rightarrow> dirs)
       [] (zip_forEach z [])"

section \<open>account.js: parseUser\<close>

record user =
  u_id :: jsval
  u_username :: jsval
  u_discriminator :: jsval
  u_globalName :: jsval
  u_email :: jsval
  u_verified :: jsval
  u_phone :: jsval
  u_premiumUntil :: jsval
  u_flags :: jsval

definition parseUser :: "json_parse \<Rightarrow> jszip \<Rightarrow> error + user" where
  "parseUser parse z =
     bind_err (readJson parse z ''Account/user.json'')
       (\<lambda>user. if nullish user then Inl TypeError
          else Inr \<lparr>
            u_id = read user ''id'',
            u_username = read user ''username'',
            u_discriminator = read user ''discriminator'',
            u_globalName = js_or (read user ''global_name'') JNull,
            u_email = read user ''email'',
            u_verified = read user ''verified'',
            u_phone = read user ''phone'',
            u_premiumUntil = read user ''premium_until'',
            u_flags = js_or (read user ''flags'') (JArr []) \<rparr>)"

section \<open>account.js: parseApplications\<close>

text \<open>
  \<^verbatim>\<open>parseApplications\<close> passes an \<^verbatim>\<open>async\<close> callback to \<^verbatim>\<open>forEach\<close>. An async function
  runs up to its first \<^verbatim>\<open>await\<close> and hands a promise back to its caller; what follows the
  \<^verbatim>\<open>await\<close> runs only after the synchronous code that called it has finished.
  \<^verbatim>\<open>forEach\<close> drops the promise. So a call of the callback on an \<^verbatim>\<open>application.json\<close>
  entry is suspended at \<^verbatim>\<open>await readJson(...)\<close>, before \<^verbatim>\<open>result.push\<close>, and is resumed
  after \<^verbatim>\<open>return result\<close>. The state of a run is the array \<^verbatim>\<open>result\<close> and the paths of the
  suspended calls, oldest first.
  (\<^verbatim>\<open>zip.folder(name)\<close> of JSZip always returns a folder object, whose root is the name
  followed by a slash.)
\<close>

record application =
  a_id :: jsval
  a_name :: jsval
  a_description :: jsval

record apps_run =
  result :: "application list"
  suspended :: "string list"

text \<open>The callback up to its \<^verbatim>\<open>await\<close>.\<close>

definition app_callback :: "apps_run \<Rightarrow> string \<times> zentry \<Rightarrow> apps_run" where
  "app_callback st = (\<lambda>(relativePath, file).
     if \<not> z_dir file \<and> endsWith relativePath ''application.json''
     then st\<lparr>suspended := suspended st @ [''Account/applications/'' @ relativePath]\<rparr>
     else st)"

text \<open>The callback from its \<^verbatim>\<open>await\<close> on, for the call suspended on \<open>path\<close>: a failed
  read rejects the promise of this call alone, and nothing is pushed.\<close>

definition app_resume :: "json_parse \<Rightarrow> jszip \<Rightarrow> application list \<Rightarrow> string \<Rightarrow> application list" where
  "app_resume parse z res path =
     (case readJson parse z path of
        Inl e \<Rightarrow> res
      | Inr json \<Rightarrow>
          (if nullish json then res
           else res @ [\<lparr> a_id = read json ''id'', a_name = read json ''name'',
                         a_description = read json ''description'' \<rparr>]))"

text \<open>The run of \<^verbatim>\<open>parseApplications\<close> up to \<^verbatim>\<open>return result\<close>: \<open>result\<close> is the array the
  caller receives, as it is when the promise resolves.\<close>

definition parseApplications :: "jszip \<Rightarrow> apps_run" where
  "parseApplications z =
     foldl app_callback \<lparr> result = [], suspended = [] \<rparr>
       (zip_forEach z ''Account/applications/'')"

text \<open>The array once every suspended call has been resumed, here oldest first. (In the
  code a call pushes when its own read completes, so with several readable applications
  the order of the records is the order of completion.)\<close>

definition settled :: "json_parse \<Rightarrow> jszip \<Rightarrow> apps_run \<Rightarrow> application list" where
  "settled parse z st = foldl (app_resume parse z) (result st) (suspended st)"

section \<open>Notions the properties use\<close>

text \<open>The value of a key that is present on a record with a value other than \<^verbatim>\<open>null\<close>.\<close>

definition present :: "(string \<times> jsval) list \<Rightarrow> string \<Rightarrow> jsval option" where
  "present kvs k =
     (case map_of kvs k of None \<Rightarrow> None | Some v \<Rightarrow> (if nullish v then None else Some v))"

text \<open>The ordered resolution of a logical field: the first key, then the second key,
  then the empty string.\<close>

definition fallback_field :: "(string \<times> jsval) list \<Rightarrow> string \<Rightarrow> string \<Rightarrow> jsval" where
  "fallback_field kvs K k =
     (case present kvs K of
        Some v \<Rightarrow> v
      | None \<Rightarrow> (case present kvs k of Some v \<Rightarrow> v | None \<Rightarrow> JStr []))"

text \<open>\<^verbatim>\<open>typeof v === 'string'\<close> and \<^verbatim>\<open>Array.isArray(v)\<close>.\<close>

definition is_string :: "jsval \<Rightarrow> bool" where
  "is_string v = (case v of JStr s \<Rightarrow> True | _ \<Rightarrow> False)"

definition is_array :: "jsval \<Rightarrow> bool" where
  "is_array v = (case v of JArr xs \<Rightarrow> True | _ \<Rightarrow> False)"

section \<open>Sample inputs\<close>







text \<open>An archive with the metadata file of one channel.\<close>

definition channelZip :: "string \<Rightarrow> string \<Rightarrow> jszip" where
  "channelZip dir txt =
     [\<lparr>z_name = ''Messages/'', z_dir = True, z_text = []\<rparr>,
      \<lparr>z_name = ''Messages/'' @ dir @ ''/channel.json'', z_dir = False, z_text = txt\<rparr>]"

text \<open>An archive with the JSON log of one channel, and one with its CSV log.\<close>

definition messagesZip :: "string \<Rightarrow> string \<Rightarrow> jszip" where
  "messagesZip dir txt =
     [\<lparr>z_name = ''Messages/'', z_dir = True, z_text = []\<rparr>,
      \<lparr>z_name = ''Messages/'' @ dir @ ''/messages.json'', z_dir = False, z_text = txt\<rparr>]"

definition csvZip :: "string \<Rightarrow> string \<Rightarrow> jszip" where
  "csvZip dir txt =
     [\<lparr>z_name = ''Messages/'', z_dir = True, z_text = []\<rparr>,
      \<lparr>z_name = ''Messages/'' @ dir @ ''/messages.csv'', z_dir = False, z_text = txt\<rparr>]"

text \<open>A CSV log without ID and Attachments columns.\<close>

definition noIdCsv :: string where
  "noIdCsv = ''Timestamp,Contents'' @ [CHR 0x0A] @ ''2021,hello''"

text \<open>An archive with the account profile alone.\<close>

definition userZip :: "string \<Rightarrow> jszip" where
  "userZip txt =
     [\<lparr>z_name = ''Account/'', z_dir = True, z_text = []\<rparr>,
      \<lparr>z_name = ''Account/user.json'', z_dir = False, z_text = txt\<rparr>]"

text \<open>An archive with one connected application, and one with a second application whose
  metadata file is malformed.\<close>

definition oneAppZip :: jszip where
  \<open>oneAppZip =
     [\<lparr>z_name = ''Account/'', z_dir = True, z_text = []\<rparr>,
      \<lparr>z_name = ''Account/applications/'', z_dir = True, z_text = []\<rparr>,
      \<lparr>z_name = ''Account/applications/10/'', z_dir = True, z_text = []\<rparr>,
      \<lparr>z_name = ''Account/applications/10/application.json'', z_dir = False,
        z_text = ''{"id":"10","name":"App","description":"d"}''\<rparr>]\<close>

definition twoAppsZip :: jszip where
  \<open>twoAppsZip =
     [\<lparr>z_name = ''Account/applications/10/application.json'', z_dir = False,
        z_text = ''{"id":"10","name":"App","description":"d"}''\<rparr>,
      \<lparr>z_name = ''Account/applications/20/application.json'', z_dir = False,
        z_text = ''{''\<rparr>]\<close>

text \<open>An archive whose channel 7 has both a JSON and a CSV log.\<close>

definition bothLogsZip :: jszip where
  "bothLogsZip =
     [\<lparr>z_name = ''Messages/'', z_dir = True, z_text = []\<rparr>,
      \<lparr>z_name = ''Messages/7/'', z_dir = True, z_text = []\<rparr>,
      \<lparr>z_name = ''Messages/7/messages.json'', z_dir = False, z_text = ''[]''\<rparr>,
      \<lparr>z_name = ''Messages/7/messages.csv'', z_dir = False, z_text = ''ID''\<rparr>,
      \<lparr>z_name = ''Messages/index.json'', z_dir = False, z_text = ''{}''\<rparr>]"

text \<open>What \<^verbatim>\<open>JSON.parse\<close> returns on the texts of the samples; it throws on the text
  \<^verbatim>\<open>{\<close>, the malformed sample.\<close>

definition sampleParse :: json_parse where
  \<open>sampleParse s =
     (if s = ''{"recipients":[{"username":"alice"}]}''
        then Some (JObj [(''recipients'', JArr [JObj [(''username'', JStr ''alice'')]])])
      else if s = ''{"id":"5","name":"general","type":0,"guild_id":"77","guild":{"name":"Guild"}}''
        then Some (JObj [(''id'', JStr ''5''), (''name'', JStr ''general''), (''type'', JNum 0),
                         (''guild_id'', JStr ''77''), (''guild'', JObj [(''name'', JStr ''Guild'')])])
      else if s = ''{"guild_id":null,"type":1}''
        then Some (JObj [(''guild_id'', JNull), (''type'', JNum 1)])
      else if s = ''{"recipients":"x"}''
        then Some (JObj [(''recipients'', JStr ''x'')])
      else if s = ''{"recipients":[{"username":""}],"recipient":{"username":"bob"}}''
        then Some (JObj [(''recipients'', JArr [JObj [(''username'', JStr [])]]),
                         (''recipient'', JObj [(''username'', JStr ''bob'')])])
      else if s = ''[{"ID":"9","content":"hi"}]''
        then Some (JArr [JObj [(''ID'', JStr ''9''), (''content'', JStr ''hi'')]])
      else if s = ''[{"ID":null,"id":"9"}]''
        then Some (JArr [JObj [(''ID'', JNull), (''id'', JStr ''9'')]])
      else if s = ''[{"ID":9}]''
        then Some (JArr [JObj [(''ID'', JNum 9)]])
      else if s = ''{"id":"1","username":"u","flags":["STAFF"]}''
        then Some (JObj [(''id'', JStr ''1''), (''username'', JStr ''u''),
                         (''flags'', JArr [JStr ''STAFF''])])
      else if s = ''{"id":"1","username":"u"}''
        then Some (JObj [(''id'', JStr ''1''), (''username'', JStr ''u'')])
      else if s = ''{"id":"1","username":"u","flags":64}''
        then Some (JObj [(''id'', JStr ''1''), (''username'', JStr ''u''), (''flags'', JNum 64)])
      else if s = ''{"id":"10","name":"App","description":"d"}''
        then Some (JObj [(''id'', JStr ''10''), (''name'', JStr ''App''),
                         (''description'', JStr ''d'')])
      else None)\<close>

section \<open>Helper lemmas\<close>


lemma map_of_assign: "map_of (assign kvs k v) = (map_of kvs)(k \<mapsto> v)"
  by (induction kvs) auto

lemma map_of_set_prop_other:
  "h \<noteq> k \<Longrightarrow> map_of (set_prop obj k v) h = map_of obj h"
  by (simp add: set_prop_def map_of_assign)


lemma foldl_set_prop_other:
  "h \<notin> set hs \<Longrightarrow>
   map_of (foldl (\<lambda>obj (h, i). set_prop obj h (f i)) obj (zip hs ns)) h = map_of obj h"
proof (induction hs arbitrary: obj ns)
  case Nil
  then show ?case by simp
next
  case (Cons a hs)
  show ?case
  proof (cases ns)
    case Nil
    then show ?thesis by simp
  next
    case (Cons n ns')
    with Cons.prems Cons.IH [of "set_prop obj a (f n)" ns'] show ?thesis
      by (simp add: map_of_set_prop_other)
  qed
qed




section \<open>parseCsv\<close>




section \<open>listChannelDirs\<close>

lemma split_on_not_Nil: "split_on c p \<noteq> []"
  by (induction p) (auto split: list.splits)

lemma split_on_single: "c \<notin> set a \<Longrightarrow> split_on c a = [a]"
  by (induction a) auto

lemma split_on_append: "c \<notin> set a \<Longrightarrow> split_on c (a @ c # b) = a # split_on c b"
  by (induction a) auto

lemma split_on_singleD: "split_on c p = [a] \<Longrightarrow> p = a \<and> c \<notin> set a"
  by (induction p arbitrary: a) (auto split: if_splits list.splits simp: split_on_not_Nil)

lemma split_on_ConsD:
  "split_on c p = a # x # xs \<Longrightarrow> \<exists>q. p = a @ c # q \<and> c \<notin> set a \<and> split_on c q = x # xs"
proof (induction p arbitrary: a)
  case Nil
  then show ?case by simp
next
  case (Cons b p)
  show ?case
  proof (cases "b = c")
    case True
    with Cons.prems show ?thesis by auto
  next
    case False
    with Cons.prems obtain a' where a: "a = b # a'" and sp: "split_on c p = a' # x # xs"
      by (auto split: list.splits)
    from Cons.IH [OF sp] obtain q where "p = a' @ c # q" "c \<notin> set a'" "split_on c q = x # xs"
      by blast
    with a False show ?thesis by auto
  qed
qed

lemma split_on_three:
  "split_on c p = [a, d, f] \<longleftrightarrow>
     p = a @ c # d @ c # f \<and> c \<notin> set a \<and> c \<notin> set d \<and> c \<notin> set f"
  (is "?L \<longleftrightarrow> ?R")
proof
  assume l: ?L
  from split_on_ConsD [OF l] obtain q where p: "p = a @ c # q" and na: "c \<notin> set a"
    and sq: "split_on c q = [d, f]" by blast
  from split_on_ConsD [OF sq] obtain q' where q: "q = d @ c # q'" and nd: "c \<notin> set d"
    and sq': "split_on c q' = [f]" by blast
  from split_on_singleD [OF sq'] have "q' = f" and "c \<notin> set f" by simp_all
  with p q na nd show ?R by simp
next
  assume r: ?R
  then show ?L by (simp add: split_on_append split_on_single)
qed

lemma case3_Some:
  "(case xs of [a, d, f] \<Rightarrow> g a d f | _ \<Rightarrow> None) = Some y \<longleftrightarrow>
     (\<exists>a d f. xs = [a, d, f] \<and> g a d f = Some y)"
  by (auto split: list.splits)

lemma channel_dir_match_Some:
  "channel_dir_match p = Some d \<longleftrightarrow>
     (\<exists>f. split_on (CHR ''/'') p = [''Messages'', d, f] \<and> d \<noteq> [] \<and>
          (f = ''messages.json'' \<or> f = ''messages.csv'' \<or> f = ''channel.json''))"
  unfolding channel_dir_match_def case3_Some
  by (auto split: if_splits)

lemma channel_dir_match_iff:
  "channel_dir_match p = Some d \<longleftrightarrow>
     d \<noteq> [] \<and> CHR ''/'' \<notin> set d \<and>
     (p = ''Messages/'' @ d @ ''/messages.json'' \<or> p = ''Messages/'' @ d @ ''/messages.csv'' \<or>
      p = ''Messages/'' @ d @ ''/channel.json'')"
proof -
  have m: "CHR ''/'' \<notin> set ''Messages''" by simp
  have f1: "CHR ''/'' \<notin> set ''messages.json''" by simp
  have f2: "CHR ''/'' \<notin> set ''messages.csv''" by simp
  have f3: "CHR ''/'' \<notin> set ''channel.json''" by simp
  have e: "''Messages/'' @ d @ CHR ''/'' # f = ''Messages'' @ CHR ''/'' # d @ CHR ''/'' # f" for f
    by simp
  have s: "split_on (CHR ''/'') p = [''Messages'', d, f] \<longleftrightarrow>
      p = ''Messages/'' @ d @ CHR ''/'' # f \<and> CHR ''/'' \<notin> set d"
    if "CHR ''/'' \<notin> set f" for f
    unfolding split_on_three e using m that by blast
  have "channel_dir_match p = Some d \<longleftrightarrow>
     d \<noteq> [] \<and> (split_on (CHR ''/'') p = [''Messages'', d, ''messages.json''] \<or>
       split_on (CHR ''/'') p = [''Messages'', d, ''messages.csv''] \<or>
       split_on (CHR ''/'') p = [''Messages'', d, ''channel.json''])"
    unfolding channel_dir_match_Some by blast
  then show ?thesis
    unfolding s [OF f1] s [OF f2] s [OF f3] by blast
qed

lemma set_add_distinct: "distinct dirs \<Longrightarrow> distinct (set_add dirs d)"
  by (simp add: set_add_def)

lemma set_set_add: "set (set_add dirs d) = insert d (set dirs)"
  by (auto simp: set_add_def)

lemma foldl_dirs_distinct:
  "distinct acc \<Longrightarrow>
   distinct (foldl (\<lambda>dirs (relativePath, file).
              case channel_dir_match relativePath of Some d \<Rightarrow> set_add dirs d | None \<Rightarrow> dirs) acc xs)"
  by (induction xs arbitrary: acc) (auto simp: set_add_distinct split: option.splits)

lemma foldl_dirs_set:
  "set (foldl (\<lambda>dirs (relativePath, file).
              case channel_dir_match relativePath of Some d \<Rightarrow> set_add dirs d | None \<Rightarrow> dirs) acc xs)
   = set acc \<union> {d. \<exists>p e. (p, e) \<in> set xs \<and> channel_dir_match p = Some d}"
proof (induction xs arbitrary: acc)
  case Nil
  then show ?case by simp
next
  case (Cons x xs)
  obtain p e where x: "x = (p, e)" by (cases x)
  show ?case
    unfolding x by (cases "channel_dir_match p") (auto simp: Cons.IH set_set_add)
qed

lemma count_list_distinct: "distinct xs \<Longrightarrow> x \<in> set xs \<Longrightarrow> count_list xs x = 1"
  by (induction xs) auto

lemma listChannelDirs_distinct: "distinct (listChannelDirs z)"
  by (simp add: listChannelDirs_def foldl_dirs_distinct)

lemma listChannelDirs_set:
  "set (listChannelDirs z) = {d. \<exists>e \<in> set z. channel_dir_match (z_name e) = Some d}"
proof -
  have "channel_dir_match [] = None" by (simp add: channel_dir_match_def)
  then have "\<And>e d. channel_dir_match (z_name e) = Some d \<Longrightarrow> z_name e \<noteq> []" by auto
  then have "{d. \<exists>p e. (p, e) \<in> set (zip_forEach z []) \<and> channel_dir_match p = Some d}
     = {d. \<exists>e \<in> set z. channel_dir_match (z_name e) = Some d}"
    by (auto simp: zip_forEach_def image_iff)
  then show ?thesis
    by (simp add: listChannelDirs_def foldl_dirs_set)
qed

text \<open>
  C9. In the result of \<open>listChannelDirs\<close> an identifier \<open>d\<close> occurs exactly once when it
  is a path segment (not empty, no slash) and the archive has an entry named
  \<^verbatim>\<open>Messages/d/messages.json\<close>, \<^verbatim>\<open>Messages/d/messages.csv\<close> or \<^verbatim>\<open>Messages/d/channel.json\<close>,
  and does not occur otherwise. A channel with both a JSON and a CSV log is listed once.
\<close>

theorem listChannelDirs_once:
  "count_list (listChannelDirs z) d =
     (if d \<noteq> [] \<and> CHR ''/'' \<notin> set d \<and>
         (\<exists>e \<in> set z. z_name e = ''Messages/'' @ d @ ''/messages.json'' \<or>
                       z_name e = ''Messages/'' @ d @ ''/messages.csv'' \<or>
                       z_name e = ''Messages/'' @ d @ ''/channel.json'')
      then 1 else 0)"
proof -
  have mem: "d \<in> set (listChannelDirs z) \<longleftrightarrow>
     d \<noteq> [] \<and> CHR ''/'' \<notin> set d \<and>
         (\<exists>e \<in> set z. z_name e = ''Messages/'' @ d @ ''/messages.json'' \<or>
                       z_name e = ''Messages/'' @ d @ ''/messages.csv'' \<or>
                       z_name e = ''Messages/'' @ d @ ''/channel.json'')"
    unfolding listChannelDirs_set by (auto simp: channel_dir_match_iff)
  show ?thesis
  proof (cases "d \<in> set (listChannelDirs z)")
    case True
    with listChannelDirs_distinct [of z] have "count_list (listChannelDirs z) d = 1"
      by (simp add: count_list_distinct)
    with True mem show ?thesis by simp
  next
    case False
    then have "count_list (listChannelDirs z) d = 0" by simp
    with False mem show ?thesis by simp
  qed
qed

theorem listChannelDirs_once_witness:
  "listChannelDirs bothLogsZip = [''7''] \<and> count_list (listChannelDirs bothLogsZip) ''7'' = 1"
proof -
  have "count_list (listChannelDirs bothLogsZip) ''7'' = 1"
    using listChannelDirs_once [of bothLogsZip "''7''"] by (simp add: bothLogsZip_def)
  moreover have "listChannelDirs bothLogsZip = [''7'']"
    by (simp add: listChannelDirs_def bothLogsZip_def zip_forEach_def channel_dir_match_def set_add_def)
  ultimately show ?thesis by simp
qed

section \<open>readChannelInfo\<close>

lemma zip_file_channelZip:
  "zip_file (channelZip dir txt) (''Messages/'' @ dir @ ''/channel.json'') =
     Some \<lparr>z_name = ''Messages/'' @ dir @ ''/channel.json'', z_dir = False, z_text = txt\<rparr>"
  by (simp add: zip_file_def channelZip_def)

lemma readJson_channelZip:
  "readJson parse (channelZip dir txt) (''Messages/'' @ dir @ ''/channel.json'') =
     (case parse txt of None \<Rightarrow> Inl SyntaxError | Some v \<Rightarrow> Inr v)"
  unfolding readJson_def zip_file_channelZip by simp

text \<open>
  C3 (amended). When \<^verbatim>\<open>Messages/<dir>/channel.json\<close> is absent, or its text does not parse,
  \<open>readChannelInfo\<close> returns the fallback record: id the identifier, name \<^verbatim>\<open>"DM "\<close>
  followed by the identifier, is_dm true, guild \<^verbatim>\<open>null\<close>, and type the empty string.
\<close>

theorem readChannelInfo_fallback:
  assumes "zip_file z (''Messages/'' @ dir @ ''/channel.json'') = None \<or>
     (\<exists>file. zip_file z (''Messages/'' @ dir @ ''/channel.json'') = Some file \<and>
        parse (z_text file) = None)"
  shows "readChannelInfo parse z dir =
     \<lparr> ci_id = JStr dir, ci_name = JStr (''DM '' @ dir), ci_type = JStr [],
       ci_is_dm = True, ci_guild = JNull \<rparr>"
proof -
  from assms have "\<exists>e. readJson parse z (''Messages/'' @ dir @ ''/channel.json'') = Inl e"
    by (auto simp: readJson_def)
  then show ?thesis
    by (auto simp: readChannelInfo_def bind_err_def fallback_def)
qed

theorem readChannelInfo_fallback_witness:
  \<open>readChannelInfo sampleParse [] ''42'' =
     \<lparr> ci_id = JStr ''42'', ci_name = JStr ''DM 42'', ci_type = JStr [],
       ci_is_dm = True, ci_guild = JNull \<rparr> \<and>
   readChannelInfo sampleParse (channelZip ''6'' ''{'') ''6'' =
     \<lparr> ci_id = JStr ''6'', ci_name = JStr ''DM 6'', ci_type = JStr [],
       ci_is_dm = True, ci_guild = JNull \<rparr>\<close>
proof -
  have a: "zip_file [] (''Messages/'' @ ''42'' @ ''/channel.json'') = None"
    by (simp add: zip_file_def)
  have b: "\<exists>file. zip_file (channelZip ''6'' ''{'') (''Messages/'' @ ''6'' @ ''/channel.json'') = Some file \<and>
        sampleParse (z_text file) = None"
    unfolding zip_file_channelZip by (simp add: sampleParse_def)
  from a readChannelInfo_fallback [of "[]" "''42''" sampleParse]
  have "readChannelInfo sampleParse [] ''42'' =
     \<lparr> ci_id = JStr ''42'', ci_name = JStr ''DM 42'', ci_type = JStr [],
       ci_is_dm = True, ci_guild = JNull \<rparr>" by simp
  moreover from b readChannelInfo_fallback [of "channelZip ''6'' ''{''" "''6''" sampleParse]
  have "readChannelInfo sampleParse (channelZip ''6'' ''{'') ''6'' =
     \<lparr> ci_id = JStr ''6'', ci_name = JStr ''DM 6'', ci_type = JStr [],
       ci_is_dm = True, ci_guild = JNull \<rparr>" by simp
  ultimately show ?thesis by simp
qed

text \<open>The claim as stated has the type unset in the fallback record; at a channel
  without metadata file the type is the empty string, not \<^verbatim>\<open>undefined\<close>.\<close>

theorem readChannelInfo_fallback_type_counterexample:
  "zip_file [] ''Messages/42/channel.json'' = None \<and>
   ci_type (readChannelInfo sampleParse [] ''42'') = JStr [] \<and>
   ci_type (readChannelInfo sampleParse [] ''42'') \<noteq> JUndefined"
  by (simp add: zip_file_def readChannelInfo_def readJson_def bind_err_def fallback_def)

lemma readChannelInfo_parsed:
  assumes "readJson parse z (''Messages/'' @ dir @ ''/channel.json'') = Inr ch" "\<not> nullish ch"
  shows "readChannelInfo parse z dir =
    \<lparr> ci_id = read ch ''id'',
      ci_name =
        js_or (read ch ''name'')
          (js_or (opt_prop (opt_first (read ch ''recipients'')) ''username'')
            (js_or (opt_prop (read ch ''recipient'') ''username'') (JStr (''DM '' @ dir)))),
      ci_type = read ch ''type'',
      ci_is_dm = (\<not> truthy (read ch ''guild_id'') \<and>
                  (read ch ''type'' = JNum 1 \<or> read ch ''type'' = JNum 3 \<or>
                   truthy (opt_prop (read ch ''recipients'') ''length''))),
      ci_guild = js_coalesce (opt_prop (read ch ''guild'') ''name'') JNull \<rparr>"
  using assms by (simp add: readChannelInfo_def bind_err_def channel_info_of_def)

lemma read_JObj: "read (JObj kvs) k = (case map_of kvs k of None \<Rightarrow> JUndefined | Some v \<Rightarrow> v)"
  by (simp add: read_def)

lemma falsy_iff:
  "\<not> truthy g \<longleftrightarrow> g = JUndefined \<or> g = JNull \<or> g = JBool False \<or> g = JNum 0 \<or> g = JStr []"
  by (cases g) auto

lemma truthy_length:
  "truthy (opt_prop r ''length'') \<longleftrightarrow>
     (case r of JArr rs \<Rightarrow> rs \<noteq> [] | JStr s \<Rightarrow> s \<noteq> []
      | JObj ps \<Rightarrow> (case map_of ps ''length'' of None \<Rightarrow> False | Some l \<Rightarrow> truthy l)
      | _ \<Rightarrow> False)"
  by (cases r) (auto simp: opt_prop_def read_def split: option.splits)

text \<open>
  C4 (amended). For a metadata record (a JSON object), is_dm is true if and only if the
  guild_id field is absent or holds a value JavaScript takes for false (\<^verbatim>\<open>null\<close>,
  \<^verbatim>\<open>false\<close>, \<^verbatim>\<open>0\<close>, the empty string), and the type is the number 1 or the number 3 or
  the recipients field has a length JavaScript takes for true: a non-empty array, a
  non-empty string, or an object with such a \<^verbatim>\<open>length\<close> property.
\<close>

theorem readChannelInfo_is_dm:
  assumes "readJson parse z (''Messages/'' @ dir @ ''/channel.json'') = Inr (JObj kvs)"
  shows "ci_is_dm (readChannelInfo parse z dir) \<longleftrightarrow>
     (case map_of kvs ''guild_id'' of
        None \<Rightarrow> True
      | Some g \<Rightarrow> g = JUndefined \<or> g = JNull \<or> g = JBool False \<or> g = JNum 0 \<or> g = JStr []) \<and>
     (map_of kvs ''type'' = Some (JNum 1) \<or> map_of kvs ''type'' = Some (JNum 3) \<or>
      (case map_of kvs ''recipients'' of
         Some (JArr rs) \<Rightarrow> rs \<noteq> []
       | Some (JStr s) \<Rightarrow> s \<noteq> []
       | Some (JObj ps) \<Rightarrow> (case map_of ps ''length'' of None \<Rightarrow> False | Some l \<Rightarrow> truthy l)
       | _ \<Rightarrow> False))"
proof -
  have "ci_is_dm (readChannelInfo parse z dir) \<longleftrightarrow>
      \<not> truthy (read (JObj kvs) ''guild_id'') \<and>
      (read (JObj kvs) ''type'' = JNum 1 \<or> read (JObj kvs) ''type'' = JNum 3 \<or>
       truthy (opt_prop (read (JObj kvs) ''recipients'') ''length''))"
    by (simp add: readChannelInfo_parsed [OF assms])
  also have "\<not> truthy (read (JObj kvs) ''guild_id'') \<longleftrightarrow>
     (case map_of kvs ''guild_id'' of
        None \<Rightarrow> True
      | Some g \<Rightarrow> g = JUndefined \<or> g = JNull \<or> g = JBool False \<or> g = JNum 0 \<or> g = JStr [])"
    unfolding falsy_iff read_JObj by (simp split: option.splits)
  also have "read (JObj kvs) ''type'' = JNum 1 \<longleftrightarrow> map_of kvs ''type'' = Some (JNum 1)"
    unfolding read_JObj by (simp split: option.splits)
  also have "read (JObj kvs) ''type'' = JNum 3 \<longleftrightarrow> map_of kvs ''type'' = Some (JNum 3)"
    unfolding read_JObj by (simp split: option.splits)
  also have "truthy (opt_prop (read (JObj kvs) ''recipients'') ''length'') \<longleftrightarrow>
      (case map_of kvs ''recipients'' of
         Some (JArr rs) \<Rightarrow> rs \<noteq> []
       | Some (JStr s) \<Rightarrow> s \<noteq> []
       | Some (JObj ps) \<Rightarrow> (case map_of ps ''length'' of None \<Rightarrow> False | Some l \<Rightarrow> truthy l)
       | _ \<Rightarrow> False)"
    unfolding truthy_length read_JObj by (simp split: option.splits jsval.splits)
  finally show ?thesis .
qed

theorem readChannelInfo_is_dm_witness:
  \<open>ci_is_dm (readChannelInfo sampleParse
      (channelZip ''1'' ''{"recipients":[{"username":"alice"}]}'') ''1'') \<and>
   \<not> ci_is_dm (readChannelInfo sampleParse
      (channelZip ''5''
         ''{"id":"5","name":"general","type":0,"guild_id":"77","guild":{"name":"Guild"}}'') ''5'')\<close>
proof -
  have a: \<open>readJson sampleParse (channelZip ''1'' ''{"recipients":[{"username":"alice"}]}'')
      (''Messages/'' @ ''1'' @ ''/channel.json'') =
      Inr (JObj [(''recipients'', JArr [JObj [(''username'', JStr ''alice'')]])])\<close>
    unfolding readJson_channelZip by (simp add: sampleParse_def)
  have b: \<open>readJson sampleParse (channelZip ''5''
         ''{"id":"5","name":"general","type":0,"guild_id":"77","guild":{"name":"Guild"}}'')
      (''Messages/'' @ ''5'' @ ''/channel.json'') =
      Inr (JObj [(''id'', JStr ''5''), (''name'', JStr ''general''), (''type'', JNum 0),
                 (''guild_id'', JStr ''77''), (''guild'', JObj [(''name'', JStr ''Guild'')])])\<close>
    unfolding readJson_channelZip by (simp add: sampleParse_def)
  from readChannelInfo_is_dm [OF a] readChannelInfo_is_dm [OF b] show ?thesis
    by simp
qed

text \<open>The claim as stated makes a record that has a guild_id field a guild channel, and
  counts only a list of recipients: a record whose guild_id is \<^verbatim>\<open>null\<close> and whose type is
  1 is a direct message, and so is a record whose recipients field is a string.\<close>

theorem readChannelInfo_is_dm_counterexample:
  \<open>readJson sampleParse (channelZip ''2'' ''{"guild_id":null,"type":1}'') ''Messages/2/channel.json''
     = Inr (JObj [(''guild_id'', JNull), (''type'', JNum 1)]) \<and>
   map_of [(''guild_id'', JNull), (''type'', JNum 1)] ''guild_id'' \<noteq> None \<and>
   ci_is_dm (readChannelInfo sampleParse (channelZip ''2'' ''{"guild_id":null,"type":1}'') ''2'') \<and>
   readJson sampleParse (channelZip ''3'' ''{"recipients":"x"}'') ''Messages/3/channel.json''
     = Inr (JObj [(''recipients'', JStr ''x'')]) \<and>
   ci_is_dm (readChannelInfo sampleParse (channelZip ''3'' ''{"recipients":"x"}'') ''3'')\<close>
proof -
  have a: \<open>readJson sampleParse (channelZip ''2'' ''{"guild_id":null,"type":1}'')
      (''Messages/'' @ ''2'' @ ''/channel.json'') = Inr (JObj [(''guild_id'', JNull), (''type'', JNum 1)])\<close>
    unfolding readJson_channelZip by (simp add: sampleParse_def)
  have b: \<open>readJson sampleParse (channelZip ''3'' ''{"recipients":"x"}'')
      (''Messages/'' @ ''3'' @ ''/channel.json'') = Inr (JObj [(''recipients'', JStr ''x'')])\<close>
    unfolding readJson_channelZip by (simp add: sampleParse_def)
  have c: \<open>ci_is_dm (readChannelInfo sampleParse (channelZip ''2'' ''{"guild_id":null,"type":1}'') ''2'')\<close>
    unfolding readChannelInfo_def Let_def a
    by (simp add: bind_err_def channel_info_of_def read_def opt_prop_def)
  have d: \<open>ci_is_dm (readChannelInfo sampleParse (channelZip ''3'' ''{"recipients":"x"}'') ''3'')\<close>
    unfolding readChannelInfo_def Let_def b
    by (simp add: bind_err_def channel_info_of_def read_def opt_prop_def)
  from a b c d show ?thesis by simp
qed

text \<open>
  C5 (amended). For a metadata record (a JSON object), the display name is the first of
  these three values that JavaScript takes for true (for a string: that is not empty),
  in this order: the name field, the username of the first recipient, the username of the
  singular recipient field; when none is, it is \<^verbatim>\<open>"DM "\<close> followed by the directory
  identifier. In particular a record without name field whose recipients start with a
  record of non-empty username resolves to that username.
\<close>

theorem readChannelInfo_name:
  assumes "readJson parse z (''Messages/'' @ dir @ ''/channel.json'') = Inr (JObj kvs)"
  shows "ci_name (readChannelInfo parse z dir) =
     (case filter truthy
        [case map_of kvs ''name'' of None \<Rightarrow> JUndefined | Some n \<Rightarrow> n,
         case map_of kvs ''recipients'' of None \<Rightarrow> JUndefined
         | Some rs \<Rightarrow> opt_prop (opt_first rs) ''username'',
         case map_of kvs ''recipient'' of None \<Rightarrow> JUndefined
         | Some r \<Rightarrow> opt_prop r ''username'']
      of v # _ \<Rightarrow> v | [] \<Rightarrow> JStr (''DM '' @ dir)) \<and>
     (\<forall>r rs u. map_of kvs ''name'' = None \<and> map_of kvs ''recipients'' = Some (JArr (JObj r # rs)) \<and>
        map_of r ''username'' = Some (JStr u) \<and> u \<noteq> [] \<longrightarrow>
        ci_name (readChannelInfo parse z dir) = JStr u)"
proof -
  have u: "opt_prop (opt_first JUndefined) ''username'' = JUndefined"
    "opt_prop JUndefined ''username'' = JUndefined"
    by (simp_all add: opt_prop_def)
  have n: "ci_name (readChannelInfo parse z dir) =
     js_or (read (JObj kvs) ''name'')
       (js_or (opt_prop (opt_first (read (JObj kvs) ''recipients'')) ''username'')
         (js_or (opt_prop (read (JObj kvs) ''recipient'') ''username'') (JStr (''DM '' @ dir))))"
    by (simp add: readChannelInfo_parsed [OF assms])
  have first: "ci_name (readChannelInfo parse z dir) =
     (case filter truthy
        [case map_of kvs ''name'' of None \<Rightarrow> JUndefined | Some n \<Rightarrow> n,
         case map_of kvs ''recipients'' of None \<Rightarrow> JUndefined
         | Some rs \<Rightarrow> opt_prop (opt_first rs) ''username'',
         case map_of kvs ''recipient'' of None \<Rightarrow> JUndefined
         | Some r \<Rightarrow> opt_prop r ''username'']
      of v # _ \<Rightarrow> v | [] \<Rightarrow> JStr (''DM '' @ dir))"
    unfolding n read_JObj by (simp add: js_or_def u split: option.splits)
  have "ci_name (readChannelInfo parse z dir) = JStr u"
    if "map_of kvs ''name'' = None" "map_of kvs ''recipients'' = Some (JArr (JObj r # rs))"
      "map_of r ''username'' = Some (JStr u)" "u \<noteq> []" for r rs u
    unfolding n read_JObj using that by (simp add: js_or_def opt_prop_def read_def)
  with first show ?thesis by blast
qed

theorem readChannelInfo_name_witness:
  \<open>ci_name (readChannelInfo sampleParse
      (channelZip ''1'' ''{"recipients":[{"username":"alice"}]}'') ''1'') = JStr ''alice''\<close>
proof -
  have a: \<open>readJson sampleParse (channelZip ''1'' ''{"recipients":[{"username":"alice"}]}'')
      (''Messages/'' @ ''1'' @ ''/channel.json'') =
      Inr (JObj [(''recipients'', JArr [JObj [(''username'', JStr ''alice'')]])])\<close>
    unfolding readJson_channelZip by (simp add: sampleParse_def)
  from readChannelInfo_name [OF a] show ?thesis
    by (simp add: opt_prop_def read_def)
qed

text \<open>The claim as stated takes the first recipient's username whenever it is present:
  a first recipient whose username is the empty string is passed over for the singular
  recipient field.\<close>

theorem readChannelInfo_name_counterexample:
  \<open>readJson sampleParse
      (channelZip ''4'' ''{"recipients":[{"username":""}],"recipient":{"username":"bob"}}'')
      ''Messages/4/channel.json'' =
      Inr (JObj [(''recipients'', JArr [JObj [(''username'', JStr [])]]),
                 (''recipient'', JObj [(''username'', JStr ''bob'')])]) \<and>
   map_of [(''username'', JStr [])] ''username'' = Some (JStr []) \<and>
   ci_name (readChannelInfo sampleParse
      (channelZip ''4'' ''{"recipients":[{"username":""}],"recipient":{"username":"bob"}}'') ''4'')
     = JStr ''bob''\<close>
proof -
  have a: \<open>readJson sampleParse
      (channelZip ''4'' ''{"recipients":[{"username":""}],"recipient":{"username":"bob"}}'')
      (''Messages/'' @ ''4'' @ ''/channel.json'') =
      Inr (JObj [(''recipients'', JArr [JObj [(''username'', JStr [])]]),
                 (''recipient'', JObj [(''username'', JStr ''bob'')])])\<close>
    unfolding readJson_channelZip by (simp add: sampleParse_def)
  have b: \<open>ci_name (readChannelInfo sampleParse
      (channelZip ''4'' ''{"recipients":[{"username":""}],"recipient":{"username":"bob"}}'') ''4'')
     = JStr ''bob''\<close>
    unfolding readChannelInfo_def Let_def a
    by (simp add: bind_err_def channel_info_of_def read_def opt_prop_def js_or_def)
  from a b show ?thesis by simp
qed

section \<open>readMessages\<close>

lemma map_err_map: "(\<And>x. x \<in> set xs \<Longrightarrow> f x = Inr (g x)) \<Longrightarrow> map_err f xs = Inr (map g xs)"
  by (induction xs) auto

lemma coalesce_read:
  "js_coalesce (read (JObj kvs) K) (js_coalesce (read (JObj kvs) k) (JStr [])) =
     fallback_field kvs K k"
  by (auto simp: fallback_field_def present_def js_coalesce_def read_def split: option.splits)

lemma json_message_JObj:
  "json_message (JObj kvs) =
     Inr \<lparr> m_id = fallback_field kvs ''ID'' ''id'',
           m_timestamp = fallback_field kvs ''Timestamp'' ''timestamp'',
           m_content = fallback_field kvs ''Contents'' ''content'',
           m_attachments = fallback_field kvs ''Attachments'' ''attachments'' \<rparr>"
  unfolding json_message_def coalesce_read by simp

lemma readMessages_json_objects:
  assumes "zip_file z (''Messages/'' @ dir @ ''/messages.json'') = Some entry"
    and "parse (z_text entry) = Some (JArr (map JObj recs))"
  shows "readMessages parse z dir =
     Inr (map (\<lambda>kvs. \<lparr> m_id = fallback_field kvs ''ID'' ''id'',
           m_timestamp = fallback_field kvs ''Timestamp'' ''timestamp'',
           m_content = fallback_field kvs ''Contents'' ''content'',
           m_attachments = fallback_field kvs ''Attachments'' ''attachments'' \<rparr>) recs)"
proof -
  have "map_err json_message (map JObj recs) =
     Inr (map (\<lambda>v. case v of JObj kvs \<Rightarrow> \<lparr> m_id = fallback_field kvs ''ID'' ''id'',
           m_timestamp = fallback_field kvs ''Timestamp'' ''timestamp'',
           m_content = fallback_field kvs ''Contents'' ''content'',
           m_attachments = fallback_field kvs ''Attachments'' ''attachments'' \<rparr>) (map JObj recs))"
    by (rule map_err_map) (auto simp: json_message_JObj)
  then show ?thesis
    using assms by (simp add: readMessages_def readJson_def bind_err_def o_def)
qed

lemma zip_file_messagesZip:
  "zip_file (messagesZip dir txt) (''Messages/'' @ dir @ ''/messages.json'') =
     Some \<lparr>z_name = ''Messages/'' @ dir @ ''/messages.json'', z_dir = False, z_text = txt\<rparr>"
  by (simp add: zip_file_def messagesZip_def)

text \<open>
  C6 (amended). When the JSON log of a channel is an array of records (JSON objects),
  \<open>readMessages\<close> returns one message per record, in record order, and each field of a
  message is the value of the capitalized key when that key is present with a value other
  than \<^verbatim>\<open>null\<close>, otherwise the value of the lowercase key when that is present with a value
  other than \<^verbatim>\<open>null\<close>, otherwise the empty string. The keys are \<^verbatim>\<open>ID\<close> and \<^verbatim>\<open>id\<close>,
  \<^verbatim>\<open>Timestamp\<close> and \<^verbatim>\<open>timestamp\<close>, \<^verbatim>\<open>Contents\<close> and \<^verbatim>\<open>content\<close>, \<^verbatim>\<open>Attachments\<close> and
  \<^verbatim>\<open>attachments\<close>.
\<close>

theorem readMessages_json_fields:
  assumes "zip_file z (''Messages/'' @ dir @ ''/messages.json'') = Some entry"
    and "parse (z_text entry) = Some (JArr (map JObj recs))"
  shows "\<exists>out. readMessages parse z dir = Inr out \<and> length out = length recs \<and>
     (\<forall>i<length recs.
        m_id (out ! i) = fallback_field (recs ! i) ''ID'' ''id'' \<and>
        m_timestamp (out ! i) = fallback_field (recs ! i) ''Timestamp'' ''timestamp'' \<and>
        m_content (out ! i) = fallback_field (recs ! i) ''Contents'' ''content'' \<and>
        m_attachments (out ! i) = fallback_field (recs ! i) ''Attachments'' ''attachments'')"
  using readMessages_json_objects [of z dir entry parse recs] assms by simp

theorem readMessages_json_fields_witness:
  \<open>readMessages sampleParse (messagesZip ''1'' ''[{"ID":"9","content":"hi"}]'') ''1'' =
     Inr [\<lparr> m_id = JStr ''9'', m_timestamp = JStr [], m_content = JStr ''hi'',
            m_attachments = JStr [] \<rparr>]\<close>
proof -
  have p: \<open>sampleParse (z_text \<lparr>z_name = ''Messages/'' @ ''1'' @ ''/messages.json'', z_dir = False,
       z_text = ''[{"ID":"9","content":"hi"}]''\<rparr>) =
     Some (JArr (map JObj [[(''ID'', JStr ''9''), (''content'', JStr ''hi'')]]))\<close>
    by (simp add: sampleParse_def)
  from readMessages_json_fields [where parse = sampleParse
      and recs = "[[(''ID'', JStr ''9''), (''content'', JStr ''hi'')]]", OF zip_file_messagesZip p]
  obtain out where
    o: \<open>readMessages sampleParse (messagesZip ''1'' ''[{"ID":"9","content":"hi"}]'') ''1'' = Inr out\<close>
    and l: "length out = 1"
    and f: "m_id (out ! 0) = fallback_field [(''ID'', JStr ''9''), (''content'', JStr ''hi'')] ''ID'' ''id''"
      "m_timestamp (out ! 0) =
         fallback_field [(''ID'', JStr ''9''), (''content'', JStr ''hi'')] ''Timestamp'' ''timestamp''"
      "m_content (out ! 0) =
         fallback_field [(''ID'', JStr ''9''), (''content'', JStr ''hi'')] ''Contents'' ''content''"
      "m_attachments (out ! 0) =
         fallback_field [(''ID'', JStr ''9''), (''content'', JStr ''hi'')] ''Attachments'' ''attachments''"
    by auto
  from l obtain m where out: "out = [m]"
    by (cases out) auto
  from f have "m = \<lparr> m_id = JStr ''9'', m_timestamp = JStr [], m_content = JStr ''hi'',
            m_attachments = JStr [] \<rparr>"
    unfolding out by (simp add: fallback_field_def present_def)
  with o out show ?thesis by simp
qed

text \<open>The claim as stated gives the capitalized key precedence whenever both keys exist:
  on a record whose \<^verbatim>\<open>ID\<close> is \<^verbatim>\<open>null\<close> and whose \<^verbatim>\<open>id\<close> is \<^verbatim>\<open>"9"\<close>, the lowercase key
  is the one read.\<close>

theorem readMessages_json_fields_counterexample:
  \<open>map_of [(''ID'', JNull), (''id'', JStr ''9'')] ''ID'' = Some JNull \<and>
   map_of [(''ID'', JNull), (''id'', JStr ''9'')] ''id'' = Some (JStr ''9'') \<and>
   readMessages sampleParse (messagesZip ''2'' ''[{"ID":null,"id":"9"}]'') ''2'' =
     Inr [\<lparr> m_id = JStr ''9'', m_timestamp = JStr [], m_content = JStr [],
            m_attachments = JStr [] \<rparr>]\<close>
proof -
  have p: \<open>sampleParse (z_text \<lparr>z_name = ''Messages/'' @ ''2'' @ ''/messages.json'', z_dir = False,
       z_text = ''[{"ID":null,"id":"9"}]''\<rparr>) =
     Some (JArr (map JObj [[(''ID'', JNull), (''id'', JStr ''9'')]]))\<close>
    by (simp add: sampleParse_def)
  from readMessages_json_objects [where parse = sampleParse
      and recs = "[[(''ID'', JNull), (''id'', JStr ''9'')]]", OF zip_file_messagesZip p]
  show ?thesis
    by (simp add: fallback_field_def present_def)
qed

lemma fallback_field_not_nullish: "\<not> nullish (fallback_field kvs K k)"
  by (auto simp: fallback_field_def present_def split: option.splits if_splits)

lemma fallback_field_absent:
  "present kvs K = None \<Longrightarrow> present kvs k = None \<Longrightarrow> fallback_field kvs K k = JStr []"
  by (simp add: fallback_field_def)

lemma present_string:
  assumes "list_all (\<lambda>(k, v). is_string v \<or> nullish v) kvs" "present kvs k = Some v"
  shows "is_string v"
proof -
  from assms(2) have m: "map_of kvs k = Some v" and n: "\<not> nullish v"
    by (auto simp: present_def split: option.splits if_splits)
  from m have "(k, v) \<in> set kvs" by (rule map_of_SomeD)
  with assms(1) n show ?thesis by (auto simp: list_all_iff)
qed

lemma fallback_field_string:
  assumes "list_all (\<lambda>(k, v). is_string v \<or> nullish v) kvs"
  shows "is_string (fallback_field kvs K k)"
proof (cases "present kvs K")
  case (Some v)
  with present_string [OF assms Some] show ?thesis by (simp add: fallback_field_def)
next
  case None
  show ?thesis
  proof (cases "present kvs k")
    case (Some v)
    with None present_string [OF assms Some] show ?thesis by (simp add: fallback_field_def)
  next
    case None': None
    with None show ?thesis by (simp add: fallback_field_def is_string_def)
  qed
qed

lemma read_row_object_absent:
  "k \<notin> set headers \<Longrightarrow> read (row_object headers values) k = JUndefined"
  by (simp add: row_object_def read_def foldl_set_prop_other)

lemma readMessages_csv:
  assumes "zip_file z (''Messages/'' @ dir @ ''/messages.json'') = None"
    and "zip_file z (''Messages/'' @ dir @ ''/messages.csv'') = Some entry"
    and "split_lines (trim (z_text entry)) = l0 # rest"
  shows "readMessages parse z dir =
     Inr (map (\<lambda>line. csv_message (row_object (split_on (CHR '','') l0) (split_on (CHR '','') line)))
            rest)"
  using assms by (simp add: readMessages_def parseCsv_def o_def)

lemma zip_file_csvZip:
  "zip_file (csvZip dir txt) (''Messages/'' @ dir @ ''/messages.csv'') =
     Some \<lparr>z_name = ''Messages/'' @ dir @ ''/messages.csv'', z_dir = False, z_text = txt\<rparr>"
  by (simp add: zip_file_def csvZip_def)

lemma zip_file_csvZip_json:
  "zip_file (csvZip dir txt) (''Messages/'' @ dir @ ''/messages.json'') = None"
  by (simp add: zip_file_def csvZip_def)

text \<open>
  C10 (amended). When the JSON log of a channel is an array of records (JSON objects),
  no field of a returned message is \<^verbatim>\<open>undefined\<close> or \<^verbatim>\<open>null\<close>; a field is the empty
  string when neither of its two keys is present with a value other than \<^verbatim>\<open>null\<close>; and
  the four fields of a message are strings when every value of its record is a string or
  \<^verbatim>\<open>null\<close> (a value that is not a string, such as a numeric ID, is passed on as it is).
  On the CSV path a field whose column is not in the header row is \<^verbatim>\<open>undefined\<close> in
  every message.
\<close>

theorem readMessages_fields_defined:
  "(zip_file z (''Messages/'' @ dir @ ''/messages.json'') = Some entry \<and>
    parse (z_text entry) = Some (JArr (map JObj recs)) \<longrightarrow>
      (\<exists>out. readMessages parse z dir = Inr out \<and> length out = length recs \<and>
         (\<forall>i<length recs.
            \<not> nullish (m_id (out ! i)) \<and> \<not> nullish (m_timestamp (out ! i)) \<and>
            \<not> nullish (m_content (out ! i)) \<and> \<not> nullish (m_attachments (out ! i)) \<and>
            (present (recs ! i) ''ID'' = None \<and> present (recs ! i) ''id'' = None \<longrightarrow>
               m_id (out ! i) = JStr []) \<and>
            (present (recs ! i) ''Timestamp'' = None \<and> present (recs ! i) ''timestamp'' = None \<longrightarrow>
               m_timestamp (out ! i) = JStr []) \<and>
            (present (recs ! i) ''Contents'' = None \<and> present (recs ! i) ''content'' = None \<longrightarrow>
               m_content (out ! i) = JStr []) \<and>
            (present (recs ! i) ''Attachments'' = None \<and> present (recs ! i) ''attachments'' = None \<longrightarrow>
               m_attachments (out ! i) = JStr []) \<and>
            (list_all (\<lambda>(k, v). is_string v \<or> nullish v) (recs ! i) \<longrightarrow>
               is_string (m_id (out ! i)) \<and> is_string (m_timestamp (out ! i)) \<and>
               is_string (m_content (out ! i)) \<and> is_string (m_attachments (out ! i)))))) \<and>
   (zip_file z (''Messages/'' @ dir @ ''/messages.json'') = None \<and>
    zip_file z (''Messages/'' @ dir @ ''/messages.csv'') = Some centry \<and>
    split_lines (trim (z_text centry)) = l0 # rest \<longrightarrow>
      (\<exists>out. readMessages parse z dir = Inr out \<and> length out = length rest \<and>
         (''ID'' \<notin> set (split_on (CHR '','') l0) \<longrightarrow> list_all (\<lambda>m. m_id m = JUndefined) out) \<and>
         (''Timestamp'' \<notin> set (split_on (CHR '','') l0) \<longrightarrow>
            list_all (\<lambda>m. m_timestamp m = JUndefined) out) \<and>
         (''Contents'' \<notin> set (split_on (CHR '','') l0) \<longrightarrow>
            list_all (\<lambda>m. m_content m = JUndefined) out) \<and>
         (''Attachments'' \<notin> set (split_on (CHR '','') l0) \<longrightarrow>
            list_all (\<lambda>m. m_attachments m = JUndefined) out)))"
proof (intro conjI impI)
  assume "zip_file z (''Messages/'' @ dir @ ''/messages.json'') = Some entry \<and>
    parse (z_text entry) = Some (JArr (map JObj recs))"
  then have "readMessages parse z dir =
     Inr (map (\<lambda>kvs. \<lparr> m_id = fallback_field kvs ''ID'' ''id'',
           m_timestamp = fallback_field kvs ''Timestamp'' ''timestamp'',
           m_content = fallback_field kvs ''Contents'' ''content'',
           m_attachments = fallback_field kvs ''Attachments'' ''attachments'' \<rparr>) recs)"
    using readMessages_json_objects [of z dir entry parse recs] by simp
  then show "\<exists>out. readMessages parse z dir = Inr out \<and> length out = length recs \<and>
         (\<forall>i<length recs.
            \<not> nullish (m_id (out ! i)) \<and> \<not> nullish (m_timestamp (out ! i)) \<and>
            \<not> nullish (m_content (out ! i)) \<and> \<not> nullish (m_attachments (out ! i)) \<and>
            (present (recs ! i) ''ID'' = None \<and> present (recs ! i) ''id'' = None \<longrightarrow>
               m_id (out ! i) = JStr []) \<and>
            (present (recs ! i) ''Timestamp'' = None \<and> present (recs ! i) ''timestamp'' = None \<longrightarrow>
               m_timestamp (out ! i) = JStr []) \<and>
            (present (recs ! i) ''Contents'' = None \<and> present (recs ! i) ''content'' = None \<longrightarrow>
               m_content (out ! i) = JStr []) \<and>
            (present (recs ! i) ''Attachments'' = None \<and> present (recs ! i) ''attachments'' = None \<longrightarrow>
               m_attachments (out ! i) = JStr []) \<and>
            (list_all (\<lambda>(k, v). is_string v \<or> nullish v) (recs ! i) \<longrightarrow>
               is_string (m_id (out ! i)) \<and> is_string (m_timestamp (out ! i)) \<and>
               is_string (m_content (out ! i)) \<and> is_string (m_attachments (out ! i))))"
    by (simp add: fallback_field_not_nullish fallback_field_absent fallback_field_string)
next
  assume "zip_file z (''Messages/'' @ dir @ ''/messages.json'') = None \<and>
    zip_file z (''Messages/'' @ dir @ ''/messages.csv'') = Some centry \<and>
    split_lines (trim (z_text centry)) = l0 # rest"
  then have "readMessages parse z dir =
     Inr (map (\<lambda>line. csv_message (row_object (split_on (CHR '','') l0) (split_on (CHR '','') line)))
            rest)"
    using readMessages_csv [of z dir centry l0 rest parse] by simp
  then show "\<exists>out. readMessages parse z dir = Inr out \<and> length out = length rest \<and>
         (''ID'' \<notin> set (split_on (CHR '','') l0) \<longrightarrow> list_all (\<lambda>m. m_id m = JUndefined) out) \<and>
         (''Timestamp'' \<notin> set (split_on (CHR '','') l0) \<longrightarrow>
            list_all (\<lambda>m. m_timestamp m = JUndefined) out) \<and>
         (''Contents'' \<notin> set (split_on (CHR '','') l0) \<longrightarrow>
            list_all (\<lambda>m. m_content m = JUndefined) out) \<and>
         (''Attachments'' \<notin> set (split_on (CHR '','') l0) \<longrightarrow>
            list_all (\<lambda>m. m_attachments m = JUndefined) out)"
    by (simp add: list_all_iff csv_message_def read_row_object_absent)
qed

theorem readMessages_fields_defined_witness:
  \<open>(\<exists>out. readMessages sampleParse (messagesZip ''1'' ''[{"ID":"9","content":"hi"}]'') ''1'' = Inr out \<and>
      length out = 1 \<and> m_timestamp (out ! 0) = JStr [] \<and> m_attachments (out ! 0) = JStr [] \<and>
      is_string (m_id (out ! 0)) \<and> is_string (m_content (out ! 0))) \<and>
   (\<exists>out. readMessages sampleParse (csvZip ''8'' noIdCsv) ''8'' = Inr out \<and> length out = 1 \<and>
      list_all (\<lambda>m. m_id m = JUndefined) out \<and> list_all (\<lambda>m. m_attachments m = JUndefined) out)\<close>
proof -
  have p: \<open>sampleParse (z_text \<lparr>z_name = ''Messages/'' @ ''1'' @ ''/messages.json'', z_dir = False,
       z_text = ''[{"ID":"9","content":"hi"}]''\<rparr>) =
     Some (JArr (map JObj [[(''ID'', JStr ''9''), (''content'', JStr ''hi'')]]))\<close>
    by (simp add: sampleParse_def)
  have str: "list_all (\<lambda>(k, v). is_string v \<or> nullish v)
      ([[(''ID'', JStr ''9''), (''content'', JStr ''hi'')]] ! 0)"
    by (simp add: is_string_def)
  have q: "split_lines (trim (z_text \<lparr>z_name = ''Messages/'' @ ''8'' @ ''/messages.csv'',
       z_dir = False, z_text = noIdCsv\<rparr>)) = [''Timestamp,Contents'', ''2021,hello'']"
    by (simp add: noIdCsv_def trim_def is_ws_def)
  have a: \<open>\<exists>out. readMessages sampleParse (messagesZip ''1'' ''[{"ID":"9","content":"hi"}]'') ''1'' = Inr out \<and>
      length out = 1 \<and> m_timestamp (out ! 0) = JStr [] \<and> m_attachments (out ! 0) = JStr [] \<and>
      is_string (m_id (out ! 0)) \<and> is_string (m_content (out ! 0))\<close>
    using readMessages_fields_defined [where parse = sampleParse
      and recs = "[[(''ID'', JStr ''9''), (''content'', JStr ''hi'')]]"
      and z = \<open>messagesZip ''1'' ''[{"ID":"9","content":"hi"}]''\<close> and dir = "''1''"
      and entry = \<open>\<lparr>z_name = ''Messages/'' @ ''1'' @ ''/messages.json'', z_dir = False,
       z_text = ''[{"ID":"9","content":"hi"}]''\<rparr>\<close>]
      zip_file_messagesZip [of "''1''" \<open>''[{"ID":"9","content":"hi"}]''\<close>] p str
    by (auto simp: present_def)
  have b: "\<exists>out. readMessages sampleParse (csvZip ''8'' noIdCsv) ''8'' = Inr out \<and> length out = 1 \<and>
      list_all (\<lambda>m. m_id m = JUndefined) out \<and> list_all (\<lambda>m. m_attachments m = JUndefined) out"
    using readMessages_fields_defined [where parse = sampleParse
      and z = "csvZip ''8'' noIdCsv" and dir = "''8''"
      and centry = "\<lparr>z_name = ''Messages/'' @ ''8'' @ ''/messages.csv'', z_dir = False,
         z_text = noIdCsv\<rparr>"
      and ?l0.0 = "''Timestamp,Contents''" and rest = "[''2021,hello'']"]
      zip_file_csvZip [of "''8''" noIdCsv] zip_file_csvZip_json [of "''8''" noIdCsv] q
    by simp
  from a b show ?thesis by simp
qed

text \<open>The claim as stated makes every output field a string: a record whose \<^verbatim>\<open>ID\<close> is the
  number 9 yields a message whose id is that number.\<close>

theorem readMessages_fields_defined_counterexample:
  \<open>readMessages sampleParse (messagesZip ''3'' ''[{"ID":9}]'') ''3'' =
     Inr [\<lparr> m_id = JNum 9, m_timestamp = JStr [], m_content = JStr [],
            m_attachments = JStr [] \<rparr>] \<and>
   \<not> is_string (JNum 9)\<close>
proof -
  have p: \<open>sampleParse (z_text \<lparr>z_name = ''Messages/'' @ ''3'' @ ''/messages.json'', z_dir = False,
       z_text = ''[{"ID":9}]''\<rparr>) = Some (JArr (map JObj [[(''ID'', JNum 9)]]))\<close>
    by (simp add: sampleParse_def)
  from readMessages_json_objects [where parse = sampleParse
      and recs = "[[(''ID'', JNum 9)]]", OF zip_file_messagesZip p]
  show ?thesis
    by (simp add: fallback_field_def present_def is_string_def)
qed

section \<open>parseUser\<close>

lemma readJson_userZip:
  "readJson parse (userZip txt) ''Account/user.json'' =
     (case parse txt of None \<Rightarrow> Inl SyntaxError | Some v \<Rightarrow> Inr v)"
  by (simp add: readJson_def zip_file_def userZip_def)

text \<open>
  C8 (amended). For an account profile (a JSON object), the flags of the parsed user are
  the profile's flags value when that value is a sequence, and the empty sequence when
  the flags field is absent or holds a value JavaScript takes for false (\<^verbatim>\<open>null\<close>,
  \<^verbatim>\<open>false\<close>, \<^verbatim>\<open>0\<close>, the empty string); every other value that is not a sequence (a
  non-zero number, a non-empty string, \<^verbatim>\<open>true\<close>, an object) is kept as it is.
\<close>

theorem parseUser_flags:
  assumes "readJson parse z ''Account/user.json'' = Inr (JObj kvs)"
  shows "\<exists>u. parseUser parse z = Inr u \<and>
     u_flags u =
       (case map_of kvs ''flags'' of
          None \<Rightarrow> JArr []
        | Some v \<Rightarrow>
            (if is_array v then v
             else if v = JUndefined \<or> v = JNull \<or> v = JBool False \<or> v = JNum 0 \<or> v = JStr []
             then JArr [] else v))"
proof -
  have "js_or v (JArr []) =
      (if is_array v then v
       else if v = JUndefined \<or> v = JNull \<or> v = JBool False \<or> v = JNum 0 \<or> v = JStr []
       then JArr [] else v)" for v
    by (cases v) (auto simp: js_or_def is_array_def)
  note flags = this
  have "parseUser parse z = Inr u \<Longrightarrow> u_flags u = js_or (read (JObj kvs) ''flags'') (JArr [])" for u
    using assms by (auto simp: parseUser_def bind_err_def)
  moreover have "\<exists>u. parseUser parse z = Inr u"
    using assms by (simp add: parseUser_def bind_err_def)
  ultimately show ?thesis
    unfolding read_JObj flags by (auto simp: is_array_def split: option.splits)
qed

theorem parseUser_flags_witness:
  \<open>(\<exists>u. parseUser sampleParse (userZip ''{"id":"1","username":"u","flags":["STAFF"]}'') = Inr u \<and>
      u_flags u = JArr [JStr ''STAFF'']) \<and>
   (\<exists>u. parseUser sampleParse (userZip ''{"id":"1","username":"u"}'') = Inr u \<and>
      u_flags u = JArr [])\<close>
proof -
  have a: \<open>readJson sampleParse (userZip ''{"id":"1","username":"u","flags":["STAFF"]}'')
      ''Account/user.json'' =
      Inr (JObj [(''id'', JStr ''1''), (''username'', JStr ''u''),
                 (''flags'', JArr [JStr ''STAFF''])])\<close>
    unfolding readJson_userZip by (simp add: sampleParse_def)
  have b: \<open>readJson sampleParse (userZip ''{"id":"1","username":"u"}'') ''Account/user.json'' =
      Inr (JObj [(''id'', JStr ''1''), (''username'', JStr ''u'')])\<close>
    unfolding readJson_userZip by (simp add: sampleParse_def)
  from parseUser_flags [OF a] parseUser_flags [OF b] show ?thesis
    by (simp add: is_array_def)
qed

text \<open>The claim as stated makes the flags the empty sequence whenever the profile's value
  is not a sequence: a profile whose flags are the number 64 keeps that number.\<close>

theorem parseUser_flags_counterexample:
  \<open>readJson sampleParse (userZip ''{"id":"1","username":"u","flags":64}'') ''Account/user.json'' =
      Inr (JObj [(''id'', JStr ''1''), (''username'', JStr ''u''), (''flags'', JNum 64)]) \<and>
   \<not> is_array (JNum 64) \<and>
   map_option u_flags
     (case parseUser sampleParse (userZip ''{"id":"1","username":"u","flags":64}'') of
        Inl e \<Rightarrow> None | Inr u \<Rightarrow> Some u) = Some (JNum 64)\<close>
proof -
  have a: \<open>readJson sampleParse (userZip ''{"id":"1","username":"u","flags":64}'')
      ''Account/user.json'' =
      Inr (JObj [(''id'', JStr ''1''), (''username'', JStr ''u''), (''flags'', JNum 64)])\<close>
    unfolding readJson_userZip by (simp add: sampleParse_def)
  show ?thesis
    unfolding parseUser_def a
    by (simp add: bind_err_def read_def js_or_def is_array_def)
qed

section \<open>parseApplications\<close>

text \<open>Nothing is pushed before \<^verbatim>\<open>return result\<close>: for every archive the array is empty
  when the caller receives it.\<close>

lemma foldl_app_callback_result: "result (foldl app_callback st xs) = result st"
  by (induction xs arbitrary: st) (auto simp: app_callback_def)

lemma parseApplications_result: "result (parseApplications z) = []"
  by (simp add: parseApplications_def foldl_app_callback_result)

text \<open>
  C1 (the code departs from the claim). On an archive with one well-formed
  \<^verbatim>\<open>application.json\<close>, \<open>parseApplications\<close> returns the empty array while the read of
  that file is still suspended; the record reaches the array only when the suspended
  call is resumed, after the return.
\<close>

theorem parseApplications_returns_before_reads:
  "result (parseApplications oneAppZip) = [] \<and>
   suspended (parseApplications oneAppZip) = [''Account/applications/10/application.json''] \<and>
   settled sampleParse oneAppZip (parseApplications oneAppZip) =
     [\<lparr> a_id = JStr ''10'', a_name = JStr ''App'', a_description = JStr ''d'' \<rparr>]"
proof -
  have s: "parseApplications oneAppZip =
      \<lparr> result = [], suspended = [''Account/applications/10/application.json''] \<rparr>"
    by (simp add: parseApplications_def oneAppZip_def zip_forEach_def app_callback_def endsWith_def)
  have "app_resume sampleParse oneAppZip [] ''Account/applications/10/application.json'' =
      [\<lparr> a_id = JStr ''10'', a_name = JStr ''App'', a_description = JStr ''d'' \<rparr>]"
    by (simp add: app_resume_def readJson_def zip_file_def oneAppZip_def sampleParse_def read_def)
  then show ?thesis
    unfolding settled_def s by simp
qed

text \<open>
  C2 (the code departs from the claim). On an archive with a well-formed and a malformed
  \<^verbatim>\<open>application.json\<close>, \<open>parseApplications\<close> returns the empty array, which does not hold
  the record of the well-formed one. Once both suspended calls are resumed, the failed
  read has pushed nothing and has not stopped the other call.
\<close>

theorem parseApplications_misses_well_formed:
  "result (parseApplications twoAppsZip) = [] \<and>
   suspended (parseApplications twoAppsZip) =
     [''Account/applications/10/application.json'', ''Account/applications/20/application.json''] \<and>
   readJson sampleParse twoAppsZip ''Account/applications/20/application.json'' = Inl SyntaxError \<and>
   settled sampleParse twoAppsZip (parseApplications twoAppsZip) =
     [\<lparr> a_id = JStr ''10'', a_name = JStr ''App'', a_description = JStr ''d'' \<rparr>]"
proof -
  have s: "parseApplications twoAppsZip =
      \<lparr> result = [], suspended = [''Account/applications/10/application.json'',
           ''Account/applications/20/application.json''] \<rparr>"
    by (simp add: parseApplications_def twoAppsZip_def zip_forEach_def app_callback_def endsWith_def)
  have a: "app_resume sampleParse twoAppsZip [] ''Account/applications/10/application.json'' =
      [\<lparr> a_id = JStr ''10'', a_name = JStr ''App'', a_description = JStr ''d'' \<rparr>]"
    by (simp add: app_resume_def readJson_def zip_file_def twoAppsZip_def sampleParse_def read_def)
  have r: "readJson sampleParse twoAppsZip ''Account/applications/20/application.json'' =
      Inl SyntaxError"
    by (simp add: readJson_def zip_file_def twoAppsZip_def sampleParse_def)
  have b: "app_resume sampleParse twoAppsZip res ''Account/applications/20/application.json'' = res"
    for res
    unfolding app_resume_def r by simp
  show ?thesis
    unfolding settled_def s using a b r by simp
qed

end
